theory Spec2Isabelle
  imports Complex_Main "HOL-Library.Sublist"
begin

section \<open>The SKU directory (frontend/src/pages/SKUs.tsx)\<close>

subsection \<open>Data\<close>

text \<open>
  The interface \<open>iSKU\<close>: the fields \<open>id\<close>, \<open>label\<close>, \<open>class\<close>, \<open>department\<close>,
  \<open>price\<close> and \<open>cost\<close> of the source carry the prefix \<open>sku_\<close> here (\<open>id\<close> is the
  identity function of HOL and \<open>class\<close> is a keyword). The two prices are numbers that no
  function below computes with.
\<close>

record iSKU =
  sku_id :: string
  sku_label :: string
  sku_class :: string
  sku_department :: string
  sku_price :: real
  sku_cost :: real

text \<open>What \<open>toast.success\<close> and \<open>toast.error\<close> show to the user.\<close>

datatype toast = Success string | Error string

text \<open>The network calls of the page.\<close>

datatype request = GetSkus | PostSku iSKU | DeleteSku string

text \<open>
  The component's state: the five \<open>useState\<close> cells, and beside them what the component
  has sent to the outside so far: the toasts shown, the messages written with
  \<open>console.error\<close>, and the network calls issued.
\<close>

record skus_state =
  allSKUs :: "iSKU list"
  loading :: bool
  currentPage :: int
  searchQuery :: string
  isDrawerOpen :: bool
  toasts :: "toast list"
  console :: "string list"
  requests :: "request list"

definition itemsPerPage :: int where
  "itemsPerPage = 10"

definition initial_skus :: skus_state where
  "initial_skus =
     \<lparr>allSKUs = [], loading = True, currentPage = 1, searchQuery = [], isDrawerOpen = False,
      toasts = [], console = [], requests = []\<rparr>"

subsection \<open>Strings and arrays of JavaScript\<close>

text \<open>
  \<open>String.prototype.toLowerCase\<close> follows the case mapping of Unicode, which is not
  modelled here: the functions that call it take it as their first argument, named
  \<open>toLowerCase\<close>, and what is proved of them holds for every function on strings. On a
  string of ASCII characters it maps the letters \<open>A\<close> to \<open>Z\<close> and keeps every other
  character; that much is \<open>ascii_toLowerCase\<close>, which the examples use, on ASCII strings
  only.
\<close>

definition lower_char :: "char \<Rightarrow> char" where
  "lower_char c =
     (case map_of (zip ''ABCDEFGHIJKLMNOPQRSTUVWXYZ'' ''abcdefghijklmnopqrstuvwxyz'') c of
        Some d \<Rightarrow> d
      | None \<Rightarrow> c)"

definition ascii_toLowerCase :: "string \<Rightarrow> string" where
  "ascii_toLowerCase s = map lower_char s"

text \<open>
  \<open>s.includes(t)\<close>: \<open>t\<close> occurs in \<open>s\<close> at some position, searched from the left.
  The empty string occurs in every string.
\<close>

fun includes_str :: "string \<Rightarrow> string \<Rightarrow> bool" where
  "includes_str [] t = (t = [])"
| "includes_str (c # cs) t = (prefix t (c # cs) \<or> includes_str cs t)"

text \<open>
  \<open>Array.prototype.slice(start, end)\<close>: a negative index counts from the end of the
  array, both indices are clamped to the array, and nothing is copied when the clamped
  end is not after the clamped start.
\<close>

definition slice :: "'a list \<Rightarrow> int \<Rightarrow> int \<Rightarrow> 'a list" where
  "slice xs start end' =
     (let len = int (length xs);
          k = (if start < 0 then max (len + start) 0 else min start len);
          final = (if end' < 0 then max (len + end') 0 else min end' len)
      in take (nat (final - k)) (drop (nat k) xs))"

subsection \<open>Pagination\<close>

text \<open>\<open>Math.ceil(allSKUs.length / itemsPerPage)\<close>, computed at every render.\<close>

definition totalPages :: "skus_state \<Rightarrow> int" where
  "totalPages st = \<lceil>real (length (allSKUs st)) / real_of_int itemsPerPage\<rceil>"

definition filteredStores :: "(string \<Rightarrow> string) \<Rightarrow> skus_state \<Rightarrow> iSKU list" where
  "filteredStores toLowerCase st =
     filter (\<lambda>store. includes_str (toLowerCase (sku_label store)) (toLowerCase (searchQuery st)))
       (allSKUs st)"

definition getCurrentPageData :: "(string \<Rightarrow> string) \<Rightarrow> skus_state \<Rightarrow> iSKU list" where
  "getCurrentPageData toLowerCase st =
     (let startIndex = (currentPage st - 1) * itemsPerPage
      in slice (filteredStores toLowerCase st) startIndex (startIndex + itemsPerPage))"

definition handlePageChange :: "int \<Rightarrow> skus_state \<Rightarrow> skus_state" where
  "handlePageChange page st = st\<lparr>currentPage := page\<rparr>"

subsection \<open>The words of the specification\<close>

text \<open>
  A label matches a query case-insensitively when the lowercased query is a contiguous
  part of the lowercased label, for the lower-casing given.
\<close>

definition spec_matches :: "(string \<Rightarrow> string) \<Rightarrow> string \<Rightarrow> iSKU \<Rightarrow> bool" where
  "spec_matches toLowerCase q s = sublist (toLowerCase q) (toLowerCase (sku_label s))"

text \<open>\<open>slice(xs, a, b)\<close> for indices that are not negative: the elements at \<open>a, ..., b - 1\<close>.\<close>

definition spec_slice :: "'a list \<Rightarrow> nat \<Rightarrow> nat \<Rightarrow> 'a list" where
  "spec_slice xs a b = take (b - a) (drop a xs)"

subsection \<open>Network calls\<close>

text \<open>
  An \<open>async\<close> function runs up to its \<open>await\<close>, and its rest runs when the awaited
  promise settles; other handlers may run in between. Each such function is therefore two
  functions on the state: \<open>_begin\<close>, up to the \<open>await\<close>, and \<open>_settle\<close>, from the
  settled promise to the end.
\<close>

datatype 'a settled = Fulfilled 'a | Rejected

text \<open>
  The body of the response to \<open>GET /skus\<close>, of TypeScript type \<open>any\<close>: an array of SKUs,
  an object given by its properties (the first binding of a name is its value), or
  \<open>null\<close>. \<open>Undefined\<close> is what reading an absent property gives.
\<close>

datatype jsval = Undefined | Null | Arr "iSKU list" | Obj "(string \<times> jsval) list"

datatype js_error = TypeError

text \<open>\<open>data.skus\<close>: reading a property of \<open>null\<close> or \<open>undefined\<close> throws.\<close>

fun prop_skus :: "jsval \<Rightarrow> js_error + jsval" where
  "prop_skus Undefined = Inl TypeError"
| "prop_skus Null = Inl TypeError"
| "prop_skus (Arr xs) = Inr Undefined"
| "prop_skus (Obj ps) = Inr (case map_of ps ''skus'' of None \<Rightarrow> Undefined | Some v \<Rightarrow> v)"

text \<open>Every array and every object is truthy, the empty array too.\<close>

fun truthy :: "jsval \<Rightarrow> bool" where
  "truthy Undefined = False"
| "truthy Null = False"
| "truthy (Arr xs) = True"
| "truthy (Obj ps) = True"

definition js_or :: "jsval \<Rightarrow> jsval \<Rightarrow> jsval" where
  "js_or a b = (if truthy a then a else b)"

definition fetchSKU_begin :: "skus_state \<Rightarrow> skus_state" where
  "fetchSKU_begin st = st\<lparr>loading := True, requests := requests st @ [GetSkus]\<rparr>"

text \<open>The \<open>catch\<close> block of \<open>fetchSKU\<close>, followed by its \<open>finally\<close> block.\<close>

definition fetchSKU_catch :: "skus_state \<Rightarrow> skus_state" where
  "fetchSKU_catch st = st\<lparr>console := console st @ [''Error fetching SKU:''], loading := False\<rparr>"

text \<open>
  The state is typed \<open>iSKU[]\<close>: where \<open>setAllSKUs\<close> would receive a value that is not an
  array, the result is \<open>None\<close>, a state that the type of \<open>allSKUs\<close> does not describe.
\<close>

definition fetchSKU_settle :: "jsval settled \<Rightarrow> skus_state \<Rightarrow> skus_state option" where
  "fetchSKU_settle r st =
     (case r of
        Rejected \<Rightarrow> Some (fetchSKU_catch st)
      | Fulfilled data \<Rightarrow>
          (case prop_skus data of
             Inl e \<Rightarrow> Some (fetchSKU_catch st)
           | Inr v \<Rightarrow>
               (case js_or v data of
                  Arr xs \<Rightarrow> Some (st\<lparr>allSKUs := xs, loading := False\<rparr>)
                | _ \<Rightarrow> None)))"

text \<open>
  \<open>createSKU\<close> after its \<open>await\<close>: it returns the body of the response, or throws a new
  error (\<open>Inl\<close>, with its message) after logging the one it caught.
\<close>

definition createSKU_settle :: "'a settled \<Rightarrow> skus_state \<Rightarrow> skus_state \<times> (string + 'a)" where
  "createSKU_settle r st =
     (case r of
        Fulfilled d \<Rightarrow> (st\<lparr>toasts := toasts st @ [Success ''SKU added successfully'']\<rparr>, Inr d)
      | Rejected \<Rightarrow> (st\<lparr>console := console st @ [''Error adding SKU:'']\<rparr>, Inl ''Failed to add SKU''))"

text \<open>
  \<open>onSubmit\<close>: its argument here is \<open>formattedData\<close>, the form data after \<open>parseFloat\<close> on
  the price and the cost. Resetting the form of react-hook-form changes nothing of the
  state modelled.
\<close>

definition onSubmit_begin :: "iSKU \<Rightarrow> skus_state \<Rightarrow> skus_state" where
  "onSubmit_begin formattedData st = st\<lparr>requests := requests st @ [PostSku formattedData]\<rparr>"

definition onSubmit_settle :: "'a settled \<Rightarrow> skus_state \<Rightarrow> skus_state" where
  "onSubmit_settle r st =
     (case createSKU_settle r st of
        (st1, Inr d) \<Rightarrow> fetchSKU_begin (st1\<lparr>isDrawerOpen := False\<rparr>)
      | (st1, Inl e) \<Rightarrow> st1\<lparr>toasts := toasts st1 @ [Error ''Failed to add SKU'']\<rparr>)"

definition handleDelete_begin :: "string \<Rightarrow> skus_state \<Rightarrow> skus_state" where
  "handleDelete_begin i st = st\<lparr>requests := requests st @ [DeleteSku i]\<rparr>"

text \<open>
  \<open>fetchSKU()\<close> is called without \<open>await\<close>: it runs up to its own \<open>await\<close>, then the
  toast is shown.
\<close>

definition handleDelete_settle :: "'a settled \<Rightarrow> skus_state \<Rightarrow> skus_state" where
  "handleDelete_settle r st =
     (case r of
        Fulfilled d \<Rightarrow>
          (let st1 = fetchSKU_begin st
           in st1\<lparr>toasts := toasts st1 @ [Success ''SKU deleted successfully'']\<rparr>)
      | Rejected \<Rightarrow>
          st\<lparr>console := console st @ [''Error deleting SKU:''],
             toasts := toasts st @ [Error ''Failed to delete SKU'']\<rparr>)"

text \<open>The effect that runs once, when the component is mounted.\<close>

definition skus_mount :: skus_state where
  "skus_mount = fetchSKU_begin initial_skus"

section \<open>The planning view\<close>

text \<open>
  The interface \<open>Store\<close>, its fields prefixed with \<open>store_\<close>. The state of the component
  \<open>Planning\<close>: \<open>open\<close>, \<open>value\<close> and \<open>loading\<close> of the source are \<open>open_p\<close>, \<open>value_p\<close> and
  \<open>loading_p\<close> here (\<open>value\<close> is a keyword, the other two names are taken). The rows of
  \<open>skuData\<close> are passed on as they come, so their type is left open. Beside the
  \<open>useState\<close> cells: the console, the store ids of the planning fetches issued so far,
  those of the planning fetches still in flight, and whether the fetch of the stores is
  still in flight.
\<close>

record Store =
  store_id :: string
  store_label :: string
  store_city :: string
  store_state :: string

record 'r planning_state =
  open_p :: bool
  value_p :: string
  stores :: "Store list"
  loading_p :: bool
  skuData :: "'r list"
  console_p :: "string list"
  fetches :: "string list"
  pending :: "string list"
  stores_pending :: bool

definition initial_planning :: "'r planning_state" where
  "initial_planning =
     \<lparr>open_p = False, value_p = [], stores = [], loading_p = True, skuData = [],
      console_p = [], fetches = [], pending = [], stores_pending = False\<rparr>"

definition fetchStores_begin :: "'r planning_state \<Rightarrow> 'r planning_state" where
  "fetchStores_begin st = st\<lparr>loading_p := True, stores_pending := True\<rparr>"

text \<open>The argument is the array \<open>data.stores || data\<close> of the response.\<close>

definition fetchStores_settle :: "Store list settled \<Rightarrow> 'r planning_state \<Rightarrow> 'r planning_state" where
  "fetchStores_settle r st =
     (case r of
        Fulfilled ss \<Rightarrow> st\<lparr>stores := ss, loading_p := False\<rparr>
      | Rejected \<Rightarrow> st\<lparr>console_p := console_p st @ [''Error fetching stores:''], loading_p := False\<rparr>)"

definition fetchPlanningData_begin :: "string \<Rightarrow> 'r planning_state \<Rightarrow> 'r planning_state" where
  "fetchPlanningData_begin storeId st =
     st\<lparr>loading_p := True, fetches := fetches st @ [storeId], pending := pending st @ [storeId]\<rparr>"

definition fetchPlanningData_settle :: "'r list settled \<Rightarrow> 'r planning_state \<Rightarrow> 'r planning_state" where
  "fetchPlanningData_settle r st =
     (case r of
        Fulfilled data \<Rightarrow> st\<lparr>skuData := data, loading_p := False\<rparr>
      | Rejected \<Rightarrow>
          st\<lparr>console_p := console_p st @ [''Error fetching planning data:''], loading_p := False\<rparr>)"

text \<open>The effect on \<open>[value]\<close>: a string is truthy when it is not empty.\<close>

definition effect_value :: "'r planning_state \<Rightarrow> 'r planning_state" where
  "effect_value st = (if value_p st \<noteq> [] then fetchPlanningData_begin (value_p st) st else st)"

text \<open>
  \<open>onSelect\<close> of a store item, and the effect on \<open>[value]\<close> that the next render runs
  when \<open>value\<close> has changed.
\<close>

definition onSelect :: "string \<Rightarrow> 'r planning_state \<Rightarrow> 'r planning_state" where
  "onSelect currentValue st =
     (let st1 = st\<lparr>value_p := (if currentValue = value_p st then [] else currentValue),
                   open_p := False,
                   console_p := console_p st @ [''Selected Store ID:'']\<rparr>
      in if value_p st1 \<noteq> value_p st then effect_value st1 else st1)"

text \<open>Mounting runs both effects, in the order of the source.\<close>

definition planning_mount :: "'r planning_state" where
  "planning_mount = effect_value (fetchStores_begin initial_planning)"

subsection \<open>What is rendered\<close>

datatype header = LoadingStores | StoreButton string

datatype 'r body = Placeholder string | PlanningSKU "'r list"

definition render_header :: "'r planning_state \<Rightarrow> header" where
  "render_header st =
     (if loading_p st then LoadingStores
      else StoreButton
        (if value_p st \<noteq> [] then
           (case find (\<lambda>store. store_id store = value_p st) (stores st) of
              Some store \<Rightarrow> store_label store
            | None \<Rightarrow> [])
         else ''Select store...''))"

definition render_body :: "'r planning_state \<Rightarrow> 'r body" where
  "render_body st =
     (if value_p st \<noteq> [] then PlanningSKU (skuData st) else Placeholder ''Select a store'')"

subsection \<open>Runs of the planning view\<close>

text \<open>
  What happens to a mounted view: the response to the fetch of the stores arrives, the
  user selects a store item, or the response to an in-flight planning fetch arrives.
  The store items, one for each store of \<open>stores\<close>, are rendered only while \<open>loading\<close> is
  false: while it is true the component renders \<open>Loading stores...\<close> in place of the
  selector, so no item can be selected then. A response for which no fetch is in flight
  cannot arrive.
\<close>

datatype 'r event =
  StoresSettle "Store list settled"
| Select string
| Settle string "'r list settled"

fun planning_step :: "'r event \<Rightarrow> 'r planning_state \<Rightarrow> 'r planning_state option" where
  "planning_step (StoresSettle r) st =
     (if stores_pending st
      then Some (fetchStores_settle r (st\<lparr>stores_pending := False\<rparr>))
      else None)"
| "planning_step (Select s) st =
     (if \<not> loading_p st \<and> s \<in> set (map store_id (stores st))
      then Some (onSelect s st)
      else None)"
| "planning_step (Settle s r) st =
     (if s \<in> set (pending st)
      then Some (fetchPlanningData_settle r (st\<lparr>pending := remove1 s (pending st)\<rparr>))
      else None)"

fun run :: "'r event list \<Rightarrow> 'r planning_state \<Rightarrow> 'r planning_state option" where
  "run [] st = Some st"
| "run (e # es) st = (case planning_step e st of None \<Rightarrow> None | Some st' \<Rightarrow> run es st')"

text \<open>
  The words of the specification: a planning fetch has resolved when its response is
  fulfilled, with the planning rows of the store asked for; \<open>rows\<close> gives the rows of
  each store.
\<close>

fun resolved :: "(string \<Rightarrow> 'r list) \<Rightarrow> 'r event \<Rightarrow> bool" where
  "resolved rows (Settle s r) = (r = Fulfilled (rows s))"
| "resolved rows (Select s) = True"
| "resolved rows (StoresSettle r) = True"

text \<open>
  What every run keeps: while a fetch is in flight, \<open>loading\<close> is true; the only
  planning fetch in flight, if any, is the one for the selected store; and with none in
  flight the rows held are those of the selected store.
\<close>

definition serial :: "(string \<Rightarrow> 'r list) \<Rightarrow> 'r planning_state \<Rightarrow> bool" where
  "serial rows st \<longleftrightarrow>
     (stores_pending st \<longrightarrow> loading_p st \<and> pending st = []) \<and>
     (pending st \<noteq> [] \<longrightarrow> loading_p st \<and> pending st = [value_p st]) \<and>
     (pending st = [] \<and> value_p st \<noteq> [] \<longrightarrow> skuData st = rows (value_p st))"

section \<open>Examples\<close>

definition widget :: iSKU where
  "widget = \<lparr>sku_id = ''S1'', sku_label = ''Widget'', sku_class = ''Tools'',
     sku_department = ''Hardware'', sku_price = 10, sku_cost = 4\<rparr>"

definition gadget :: iSKU where
  "gadget = \<lparr>sku_id = ''S2'', sku_label = ''Gadget'', sku_class = ''Tools'',
     sku_department = ''Hardware'', sku_price = 20, sku_cost = 9\<rparr>"

definition directory :: "string \<Rightarrow> skus_state" where
  "directory q = initial_skus\<lparr>allSKUs := [widget, gadget], loading := False, searchQuery := q\<rparr>"

text \<open>Twelve SKUs, two pages: eleven widgets and then one gadget.\<close>

definition catalogue :: "string \<Rightarrow> int \<Rightarrow> skus_state" where
  "catalogue q p =
     initial_skus\<lparr>allSKUs := replicate 11 widget @ [gadget], loading := False,
       currentPage := p, searchQuery := q\<rparr>"

text \<open>Planning rows as the table \<open>Planning\<close> of the schema has them.\<close>

record planning_row =
  row_id :: int
  row_store :: string
  row_sku :: string
  row_week :: string
  row_salesUnits :: int

definition row_A :: planning_row where
  "row_A = \<lparr>row_id = 1, row_store = ''A'', row_sku = ''S1'', row_week = ''W01'', row_salesUnits = 5\<rparr>"

definition row_B :: planning_row where
  "row_B = \<lparr>row_id = 2, row_store = ''B'', row_sku = ''S1'', row_week = ''W01'', row_salesUnits = 7\<rparr>"

definition planning_rows :: "string \<Rightarrow> planning_row list" where
  "planning_rows s = (if s = ''A'' then [row_A] else if s = ''B'' then [row_B] else [])"

definition store_A :: Store where
  "store_A = \<lparr>store_id = ''A'', store_label = ''Alpha'', store_city = ''Austin'', store_state = ''TX''\<rparr>"

definition store_B :: Store where
  "store_B = \<lparr>store_id = ''B'', store_label = ''Beta'', store_city = ''Boston'', store_state = ''MA''\<rparr>"

text \<open>The planning view with store \<open>A\<close> selected and its rows loaded.\<close>

definition loaded_A :: "planning_row planning_state" where
  "loaded_A =
     \<lparr>open_p = False, value_p = ''A'', stores = [store_A, store_B], loading_p = False,
      skuData = [row_A], console_p = [''Selected Store ID:''], fetches = [''A''], pending = [],
      stores_pending = False\<rparr>"

text \<open>And after that, store \<open>B\<close> selected and its rows loaded.\<close>

definition loaded_B :: "planning_row planning_state" where
  "loaded_B =
     \<lparr>open_p = False, value_p = ''B'', stores = [store_A, store_B], loading_p = False,
      skuData = [row_B], console_p = [''Selected Store ID:'', ''Selected Store ID:''],
      fetches = [''A'', ''B''], pending = [], stores_pending = False\<rparr>"

section \<open>Properties of the SKU directory\<close>

lemmas eval_skus = initial_skus_def ascii_toLowerCase_def lower_char_def
  itemsPerPage_def widget_def gadget_def eval_nat_numeral

lemmas eval_planning = planning_mount_def initial_planning_def fetchStores_begin_def
  fetchStores_settle_def effect_value_def onSelect_def fetchPlanningData_begin_def
  fetchPlanningData_settle_def render_body_def Let_def

lemma includes_sublist: "includes_str s t \<longleftrightarrow> sublist t s"
  by (induction s) (simp_all add: sublist_Cons_right)

lemma filteredStores_spec:
  "filteredStores toLowerCase st = filter (spec_matches toLowerCase (searchQuery st)) (allSKUs st)"
  by (simp add: filteredStores_def spec_matches_def [abs_def] includes_sublist)

lemma length_slice_window: "length (slice xs a (a + 10)) \<le> 10"
proof -
  have "length (slice xs a (a + 10)) \<le>
      nat ((if a + 10 < 0 then max (int (length xs) + (a + 10)) 0 else min (a + 10) (int (length xs)))
        - (if a < 0 then max (int (length xs) + a) 0 else min a (int (length xs))))"
    by (simp add: slice_def Let_def)
  also have "\<dots> \<le> 10"
    by (simp split: if_splits) linarith+
  finally show ?thesis .
qed

lemma set_slice: "set (slice xs a b) \<subseteq> set xs"
proof -
  have "set (slice xs a b) \<subseteq> set (drop (nat (if a < 0 then max (int (length xs) + a) 0
      else min a (int (length xs)))) xs)"
    unfolding slice_def Let_def by (rule set_take_subset)
  also have "\<dots> \<subseteq> set xs"
    by (rule set_drop_subset)
  finally show ?thesis .
qed

lemma slice_nonneg:
  assumes "0 \<le> a" and "a \<le> b"
  shows "slice xs a b = spec_slice xs (nat a) (nat b)"
proof (cases "a \<le> int (length xs)")
  case True
  with assms show ?thesis
    by (simp add: slice_def spec_slice_def Let_def min_def nat_diff_distrib)
next
  case False
  with assms show ?thesis
    by (simp add: slice_def spec_slice_def Let_def min_def)
qed

lemma ceiling_tenth: "\<lceil>real n / 10\<rceil> = (int n + 9) div 10"
  by (simp add: ceiling_divide_eq_div [of "int n" 10, simplified])

lemma totalPages_div: "totalPages st = (int (length (allSKUs st)) + 9) div 10"
  by (simp add: totalPages_def itemsPerPage_def ceiling_tenth)

subsection \<open>The number of pages\<close>

text \<open>
  C1, as stated, fails: with the twelve SKUs of the catalogue and the query \<open>gAd\<close>, one
  SKU matches, so the ceiling of the filtered count over the page size is 1, and
  \<open>totalPages\<close> is 2.
\<close>

theorem totalPages_filtered_counterexample:
  "totalPages (catalogue ''gAd'' 1) \<noteq>
     \<lceil>real (length (filter (spec_matches ascii_toLowerCase (searchQuery (catalogue ''gAd'' 1)))
        (allSKUs (catalogue ''gAd'' 1)))) / real_of_int itemsPerPage\<rceil>"
proof -
  have "filter (spec_matches ascii_toLowerCase (searchQuery (catalogue ''gAd'' 1)))
      (allSKUs (catalogue ''gAd'' 1)) = [gadget]"
    by (simp add: spec_matches_def sublist_code catalogue_def eval_skus)
  moreover have "totalPages (catalogue ''gAd'' 1) = 2"
    by (simp add: totalPages_div catalogue_def)
  ultimately show ?thesis
    unfolding itemsPerPage_def of_int_numeral ceiling_tenth by simp
qed

text \<open>
  C1, amended: \<open>totalPages\<close> is the ceiling of the number of all fetched SKUs over the
  page size 10, that is the least \<open>n\<close> with \<open>length allSKUs \<le> 10 * n\<close>, whatever the
  search query is. It is never below the ceiling of the number of matching SKUs over 10,
  and equals it when every fetched SKU matches the query.
\<close>

theorem totalPages_unfiltered:
  "10 * (totalPages st - 1) < int (length (allSKUs st)) \<and>
   int (length (allSKUs st)) \<le> 10 * totalPages st \<and>
   totalPages (st\<lparr>searchQuery := q\<rparr>) = totalPages st \<and>
   \<lceil>real (length (filter (spec_matches toLowerCase (searchQuery st)) (allSKUs st)))
      / real_of_int itemsPerPage\<rceil> \<le> totalPages st \<and>
   ((\<forall>s \<in> set (allSKUs st). spec_matches toLowerCase (searchQuery st) s) \<longrightarrow>
     totalPages st =
       \<lceil>real (length (filter (spec_matches toLowerCase (searchQuery st)) (allSKUs st)))
          / real_of_int itemsPerPage\<rceil>)"
proof -
  let ?f = "filter (spec_matches toLowerCase (searchQuery st)) (allSKUs st)"
  have "length ?f \<le> length (allSKUs st)"
    by (rule length_filter_le)
  then have le: "\<lceil>real (length ?f) / real_of_int itemsPerPage\<rceil> \<le> totalPages st"
    unfolding totalPages_div itemsPerPage_def of_int_numeral ceiling_tenth by linarith
  have eq: "totalPages st = \<lceil>real (length ?f) / real_of_int itemsPerPage\<rceil>"
    if "\<forall>s \<in> set (allSKUs st). spec_matches toLowerCase (searchQuery st) s"
  proof -
    from that have "?f = allSKUs st" by simp
    then show ?thesis by (simp add: totalPages_def)
  qed
  have "10 * (totalPages st - 1) < int (length (allSKUs st))"
    unfolding totalPages_div by presburger
  moreover have "int (length (allSKUs st)) \<le> 10 * totalPages st"
    unfolding totalPages_div by presburger
  moreover have "totalPages (st\<lparr>searchQuery := q\<rparr>) = totalPages st"
    by (simp add: totalPages_def)
  ultimately show ?thesis using le eq by blast
qed

theorem totalPages_unfiltered_witness:
  "spec_matches ascii_toLowerCase [] widget \<and> spec_matches ascii_toLowerCase [] gadget \<and>
   totalPages (catalogue [] 1) = 2 \<and>
   \<lceil>real (length (filter (spec_matches ascii_toLowerCase []) (allSKUs (catalogue [] 1))))
      / real_of_int itemsPerPage\<rceil> = 2"
proof -
  have m: "spec_matches ascii_toLowerCase [] widget" "spec_matches ascii_toLowerCase [] gadget"
    by (simp_all add: spec_matches_def ascii_toLowerCase_def)
  have q: "searchQuery (catalogue [] 1) = []"
    by (simp add: catalogue_def)
  have "\<forall>s \<in> set (allSKUs (catalogue [] 1)).
      spec_matches ascii_toLowerCase (searchQuery (catalogue [] 1)) s"
    unfolding q using m by (simp add: catalogue_def)
  with totalPages_unfiltered [where st = "catalogue [] 1" and toLowerCase = ascii_toLowerCase]
  have e: "totalPages (catalogue [] 1) =
      \<lceil>real (length (filter (spec_matches ascii_toLowerCase []) (allSKUs (catalogue [] 1))))
         / real_of_int itemsPerPage\<rceil>"
    unfolding q by blast
  have "totalPages (catalogue [] 1) = 2"
    by (simp add: totalPages_div catalogue_def)
  with e m show ?thesis by simp
qed

subsection \<open>The current page\<close>

text \<open>
  C2: for every list of SKUs, every search query and every current page number, the
  current page data has at most 10 elements (the page size), and the label of each of
  them contains the query as a substring, case-insensitively: the lowercased label
  contains the lowercased query, whatever \<open>toLowerCase\<close> does to a string.
\<close>

theorem getCurrentPageData_bounded_matching:
  "int (length (getCurrentPageData toLowerCase st)) \<le> itemsPerPage \<and>
   (\<forall>s \<in> set (getCurrentPageData toLowerCase st). spec_matches toLowerCase (searchQuery st) s)"
proof -
  have "set (getCurrentPageData toLowerCase st) \<subseteq> set (filteredStores toLowerCase st)"
    by (simp add: getCurrentPageData_def Let_def set_slice)
  then have "\<forall>s \<in> set (getCurrentPageData toLowerCase st).
      spec_matches toLowerCase (searchQuery st) s"
    by (auto simp: filteredStores_spec)
  moreover have "int (length (getCurrentPageData toLowerCase st)) \<le> itemsPerPage"
    using length_slice_window [of "filteredStores toLowerCase st" "(currentPage st - 1) * 10"]
    by (simp add: getCurrentPageData_def Let_def itemsPerPage_def)
  ultimately show ?thesis by simp
qed

theorem getCurrentPageData_bounded_matching_witness:
  "getCurrentPageData ascii_toLowerCase (directory ''wid'') = [widget] \<and>
   int (length (getCurrentPageData ascii_toLowerCase (directory ''wid''))) \<le> itemsPerPage \<and>
   spec_matches ascii_toLowerCase ''wid'' widget"
proof -
  have e: "getCurrentPageData ascii_toLowerCase (directory ''wid'') = [widget]"
    by (simp add: getCurrentPageData_def filteredStores_def slice_def directory_def eval_skus)
  have q: "searchQuery (directory ''wid'') = ''wid''"
    by (simp add: directory_def)
  from getCurrentPageData_bounded_matching [of ascii_toLowerCase "directory ''wid''"]
  show ?thesis
    unfolding e q by simp
qed

text \<open>
  C3: for every fetched SKU list, every search query and every current page \<open>p \<ge> 1\<close>,
  the current page data is \<open>slice(filtered, (p - 1) * 10, p * 10)\<close>, where \<open>filtered\<close>
  keeps exactly the SKUs whose lowercased label contains the lowercased query, whatever
  \<open>toLowerCase\<close> does to a string.
\<close>

theorem getCurrentPageData_slice:
  assumes "1 \<le> currentPage st"
  shows "getCurrentPageData toLowerCase st =
     spec_slice (filter (spec_matches toLowerCase (searchQuery st)) (allSKUs st))
       (nat ((currentPage st - 1) * 10)) (nat (currentPage st * 10))"
proof -
  have "getCurrentPageData toLowerCase st =
      slice (filteredStores toLowerCase st) ((currentPage st - 1) * 10) (currentPage st * 10)"
    by (simp add: getCurrentPageData_def Let_def itemsPerPage_def algebra_simps)
  also have "\<dots> = spec_slice (filteredStores toLowerCase st)
      (nat ((currentPage st - 1) * 10)) (nat (currentPage st * 10))"
    using assms by (intro slice_nonneg) simp_all
  finally show ?thesis
    by (simp add: filteredStores_spec)
qed

theorem getCurrentPageData_slice_witness:
  "1 \<le> currentPage (catalogue ''ET'' 2) \<and>
   getCurrentPageData ascii_toLowerCase (catalogue ''ET'' 2) = [widget, gadget] \<and>
   spec_slice (filter (spec_matches ascii_toLowerCase ''ET'') (replicate 11 widget @ [gadget]))
     10 20 = [widget, gadget]"
proof -
  have p: "currentPage (catalogue ''ET'' 2) = 2" and q: "searchQuery (catalogue ''ET'' 2) = ''ET''"
    and a: "allSKUs (catalogue ''ET'' 2) = replicate 11 widget @ [gadget]"
    by (simp_all add: catalogue_def)
  have h: "1 \<le> currentPage (catalogue ''ET'' 2)"
    by (simp add: p)
  have e: "getCurrentPageData ascii_toLowerCase (catalogue ''ET'' 2) = [widget, gadget]"
    by (simp add: getCurrentPageData_def filteredStores_def slice_def catalogue_def eval_skus)
  from getCurrentPageData_slice [OF h, of ascii_toLowerCase] h e show ?thesis
    unfolding p q a by simp
qed

subsection \<open>Failing network calls\<close>

lemma fetchSKU_settle_Rejected: "fetchSKU_settle Rejected st = Some (fetchSKU_catch st)"
  by (simp add: fetchSKU_settle_def)

text \<open>
  C5, as stated, fails for the fetch: when \<open>GET /skus\<close> of the mounting component is
  rejected, no toast has been shown afterwards.
\<close>

theorem fetchSKU_failure_toast_counterexample:
  "map_option toasts (fetchSKU_settle Rejected skus_mount) = Some []"
  by (simp add: fetchSKU_settle_Rejected fetchSKU_catch_def skus_mount_def fetchSKU_begin_def
      initial_skus_def)

text \<open>
  C5, amended: a failing create and a failing delete are caught in their handlers and
  reported with an error toast, and no network call is issued again; a failing fetch of
  the SKUs is caught in \<open>fetchSKU\<close> and written to the console only, with no toast and
  no network call issued again.
\<close>

theorem network_failures_handled:
  "toasts (handleDelete_settle Rejected st) = toasts st @ [Error ''Failed to delete SKU''] \<and>
   requests (handleDelete_settle Rejected st) = requests st \<and>
   toasts (onSubmit_settle Rejected st) = toasts st @ [Error ''Failed to add SKU''] \<and>
   requests (onSubmit_settle Rejected st) = requests st \<and>
   (\<exists>st'. fetchSKU_settle Rejected st = Some st' \<and>
      toasts st' = toasts st \<and>
      console st' = console st @ [''Error fetching SKU:''] \<and>
      requests st' = requests st)"
  by (simp add: handleDelete_settle_def onSubmit_settle_def createSKU_settle_def
      fetchSKU_settle_Rejected fetchSKU_catch_def)

text \<open>
  C9: if the SKU fetch fails, \<open>allSKUs\<close> is what it was before the fetch, and of the
  \<open>useState\<close> cells only \<open>loading\<close> is set, to false. The fetch fails when the request
  is rejected, and also when reading \<open>data.skus\<close> throws.
\<close>

theorem fetchSKU_failure_keeps_list:
  "(\<exists>st'. fetchSKU_settle Rejected (fetchSKU_begin st) = Some st' \<and>
      allSKUs st' = allSKUs st \<and> loading st' = False \<and> currentPage st' = currentPage st \<and>
      searchQuery st' = searchQuery st \<and> isDrawerOpen st' = isDrawerOpen st) \<and>
   (\<exists>st'. fetchSKU_settle (Fulfilled Null) (fetchSKU_begin st) = Some st' \<and>
      allSKUs st' = allSKUs st \<and> loading st' = False \<and> currentPage st' = currentPage st \<and>
      searchQuery st' = searchQuery st \<and> isDrawerOpen st' = isDrawerOpen st)"
  by (simp add: fetchSKU_settle_def fetchSKU_catch_def fetchSKU_begin_def)

subsection \<open>The two shapes of the response\<close>

text \<open>
  C7: the SKU fetch accepts a response that is a bare array of SKUs, and one that is an
  object whose property \<open>skus\<close> is that array; in both cases the stored list is the array.
\<close>

theorem fetchSKU_accepts_both_shapes:
  assumes "data = Arr xs \<or> (\<exists>ps. data = Obj ps \<and> map_of ps ''skus'' = Some (Arr xs))"
  shows "\<exists>st'. fetchSKU_settle (Fulfilled data) st = Some st' \<and> allSKUs st' = xs"
  using assms by (auto simp: fetchSKU_settle_def js_or_def)

theorem fetchSKU_accepts_both_shapes_witness:
  "(\<exists>st'. fetchSKU_settle (Fulfilled (Arr [widget, gadget])) skus_mount = Some st' \<and>
      allSKUs st' = [widget, gadget]) \<and>
   (\<exists>st'. fetchSKU_settle (Fulfilled (Obj [(''skus'', Arr [])])) skus_mount = Some st' \<and>
      allSKUs st' = [])"
proof -
  have "\<exists>ps. Obj [(''skus'', Arr [])] = Obj ps \<and> map_of ps ''skus'' = Some (Arr [])"
    by simp
  then have "Obj [(''skus'', Arr [])] = Arr [] \<or>
      (\<exists>ps. Obj [(''skus'', Arr [])] = Obj ps \<and> map_of ps ''skus'' = Some (Arr []))" ..
  from fetchSKU_accepts_both_shapes [OF this, of skus_mount]
    fetchSKU_accepts_both_shapes [of "Arr [widget, gadget]" "[widget, gadget]" skus_mount]
  show ?thesis by simp
qed

section \<open>Properties of the planning view\<close>

lemma run_loaded_A:
  "run [StoresSettle (Fulfilled [store_A, store_B]), Select ''A'',
        Settle ''A'' (Fulfilled [row_A])] planning_mount = Some loaded_A"
  by (simp add: eval_planning loaded_A_def store_A_def store_B_def)

text \<open>
  While the fetch for \<open>A\<close> is in flight no store can be selected, so the fetches of two
  selections never overlap.
\<close>

lemma run_overlap_refused:
  "run [StoresSettle (Fulfilled [store_A, store_B]), Select ''A'', Select ''B'']
     (planning_mount :: planning_row planning_state) = None"
  by (simp add: eval_planning store_A_def store_B_def)

lemma serial_mount: "serial rows planning_mount"
  by (simp add: serial_def eval_planning)

lemma serial_step:
  assumes "serial rows st" and "resolved rows e" and "planning_step e st = Some st'"
  shows "serial rows st'"
proof (cases e)
  case (StoresSettle r)
  with assms show ?thesis
    by (cases r) (auto simp: serial_def fetchStores_settle_def split: if_splits)
next
  case (Select s)
  with assms show ?thesis
    by (auto simp: serial_def onSelect_def effect_value_def fetchPlanningData_begin_def Let_def
        split: if_splits)
next
  case (Settle s r)
  with assms show ?thesis
    by (auto simp: serial_def fetchPlanningData_settle_def split: if_splits)
qed

lemma serial_run:
  assumes "serial rows st" and "\<forall>e \<in> set es. resolved rows e" and "run es st = Some st'"
  shows "serial rows st'"
  using assms
proof (induction es arbitrary: st)
  case Nil
  then show ?case by simp
next
  case (Cons e es)
  from Cons.prems(3) obtain st1 where s1: "planning_step e st = Some st1"
    and r: "run es st1 = Some st'"
    by (auto split: option.splits)
  from Cons.prems(1,2) s1 have "serial rows st1"
    by (auto intro: serial_step)
  with Cons.IH [of st1] Cons.prems(2) r show ?case by simp
qed

text \<open>
  C4: in every run of the mounted view in which the planning fetches resolve, so in
  particular after selecting store \<open>A\<close> and then store \<open>B\<close>, once no planning fetch is in
  flight any more the rows displayed are exactly those of the store selected last. The
  order of the responses does not matter, because there is none to choose: at most one
  planning fetch is in flight at any time, and it is the one for the selected store, so
  the fetch for \<open>B\<close> is issued only after the one for \<open>A\<close> has resolved.
\<close>

theorem planning_shows_selected_store:
  assumes "run es planning_mount = Some st" and "\<forall>e \<in> set es. resolved rows e"
  shows "(pending st = [] \<or> pending st = [value_p st]) \<and>
         (pending st = [] \<and> value_p st \<noteq> [] \<longrightarrow>
            render_body st = PlanningSKU (rows (value_p st)))"
proof -
  from serial_run [OF serial_mount assms(2) assms(1)] have "serial rows st" .
  then show ?thesis
    by (auto simp: serial_def render_body_def)
qed

theorem planning_shows_selected_store_witness:
  "run [StoresSettle (Fulfilled [store_A, store_B]), Select ''A'',
        Settle ''A'' (Fulfilled [row_A]), Select ''B'', Settle ''B'' (Fulfilled [row_B])]
     planning_mount = Some loaded_B \<and>
   pending loaded_B = [] \<and> value_p loaded_B = ''B'' \<and>
   render_body loaded_B = PlanningSKU [row_B]"
proof -
  let ?es = "[StoresSettle (Fulfilled [store_A, store_B]), Select ''A'',
      Settle ''A'' (Fulfilled [row_A]), Select ''B'', Settle ''B'' (Fulfilled [row_B])]"
  have r: "run ?es planning_mount = Some loaded_B"
    by (simp add: eval_planning loaded_B_def store_A_def store_B_def)
  have a: "\<forall>e \<in> set ?es. resolved planning_rows e"
    by (simp add: planning_rows_def)
  have p: "pending loaded_B = []" and v: "value_p loaded_B = ''B''"
    by (simp_all add: loaded_B_def)
  have "planning_rows ''B'' = [row_B]"
    by (simp add: planning_rows_def)
  with planning_shows_selected_store [OF r a] r p v show ?thesis
    by simp
qed

subsection \<open>No store selected\<close>

text \<open>
  C6: when no store is selected (the selected store id is the empty string), the view
  renders the placeholder \<open>Select a store\<close>, and the effect on the selected id issues
  no planning fetch.
\<close>

theorem no_store_placeholder_no_fetch:
  assumes "value_p st = []"
  shows "render_body st = Placeholder ''Select a store'' \<and>
         fetches (effect_value st) = fetches st \<and>
         pending (effect_value st) = pending st"
  using assms by (simp add: render_body_def effect_value_def)

theorem no_store_placeholder_no_fetch_witness:
  "value_p (planning_mount :: planning_row planning_state) = [] \<and>
   render_body (planning_mount :: planning_row planning_state) = Placeholder ''Select a store'' \<and>
   fetches (effect_value (planning_mount :: planning_row planning_state)) = []"
proof -
  have v: "value_p (planning_mount :: planning_row planning_state) = []"
    by (simp add: planning_mount_def initial_planning_def fetchStores_begin_def effect_value_def)
  have f: "fetches (planning_mount :: planning_row planning_state) = []"
    by (simp add: planning_mount_def initial_planning_def fetchStores_begin_def effect_value_def)
  from no_store_placeholder_no_fetch [OF v] v f show ?thesis by simp
qed

subsection \<open>The store selector\<close>

text \<open>
  C8: choosing the store id that is already selected clears the selection; choosing
  any other store id selects it.
\<close>

theorem onSelect_toggles:
  "(value_p st = s \<longrightarrow> value_p (onSelect s st) = []) \<and>
   (value_p st \<noteq> s \<longrightarrow> value_p (onSelect s st) = s)"
  by (simp add: onSelect_def effect_value_def fetchPlanningData_begin_def Let_def)

theorem onSelect_toggles_witness:
  "value_p loaded_A = ''A'' \<and> value_p (onSelect ''A'' loaded_A) = [] \<and>
   value_p loaded_A \<noteq> ''B'' \<and> value_p (onSelect ''B'' loaded_A) = ''B''"
  using onSelect_toggles [of loaded_A "''A''"] onSelect_toggles [of loaded_A "''B''"]
  by (simp add: loaded_A_def)

text \<open>
  C10: when the selected store id changes from a non-empty value to the empty string,
  no planning fetch is issued and \<open>skuData\<close> keeps the rows fetched before, while the
  view shows the placeholder instead of them.
\<close>

theorem deselect_keeps_skuData:
  assumes "value_p st \<noteq> []"
  shows "value_p (onSelect (value_p st) st) = [] \<and>
         fetches (onSelect (value_p st) st) = fetches st \<and>
         pending (onSelect (value_p st) st) = pending st \<and>
         skuData (onSelect (value_p st) st) = skuData st \<and>
         render_body (onSelect (value_p st) st) = Placeholder ''Select a store''"
  using assms by (simp add: onSelect_def effect_value_def render_body_def Let_def)

theorem deselect_keeps_skuData_witness:
  "value_p loaded_A \<noteq> [] \<and> value_p (onSelect ''A'' loaded_A) = [] \<and>
   fetches (onSelect ''A'' loaded_A) = [''A''] \<and>
   skuData (onSelect ''A'' loaded_A) = [row_A] \<and>
   render_body loaded_A = PlanningSKU [row_A] \<and>
   render_body (onSelect ''A'' loaded_A) = Placeholder ''Select a store''"
proof -
  have v: "value_p loaded_A = ''A''" and f: "fetches loaded_A = [''A'']"
    and d: "skuData loaded_A = [row_A]"
    by (simp_all add: loaded_A_def)
  have n: "value_p loaded_A \<noteq> []" by (simp add: v)
  have r: "render_body loaded_A = PlanningSKU [row_A]"
    by (simp add: render_body_def loaded_A_def)
  from deselect_keeps_skuData [OF n] show ?thesis unfolding v f d using r by simp
qed

end
